theory Spec2Isabelle
  imports Main "HOL-Library.Sublist"
begin

section \<open>bup helpers: filesystem timestamps and the client/server connection\<close>

text \<open>
  A shallow embedding of \<^verbatim>\<open>lib/bup/helpers.py\<close>: the class \<^verbatim>\<open>FSTime\<close>, the factory
  \<^verbatim>\<open>stat_result.from_stat_rep\<close>, the writer \<^verbatim>\<open>_hard_write\<close>, and the class \<^verbatim>\<open>Conn\<close>
  with the generator \<^verbatim>\<open>linereader\<close>. Python 2 integers are unbounded, so they are
  \<open>int\<close>; on integers \<^verbatim>\<open>/\<close> is floor division and \<^verbatim>\<open>%\<close> has the sign of the divisor,
  which is what \<open>div\<close> and \<open>mod\<close> are on \<open>int\<close>. A Python 2 \<^verbatim>\<open>str\<close> is a byte string,
  here \<open>string\<close>.
\<close>

subsection \<open>FSTime, integer nanoseconds\<close>

text \<open>
  An \<^verbatim>\<open>FSTime\<close> object has the single attribute \<^verbatim>\<open>_value\<close>. The methods below are
  those of the class body under \<^verbatim>\<open>if _helpers.lstat:\<close>, where \<^verbatim>\<open>_value\<close> is an
  integer count of nanoseconds.
\<close>

datatype 'v FSTime = FSTime (tvalue: 'v)

text \<open>\<^verbatim>\<open>ts._value = timespec[0] * 10**9 + timespec[1]\<close>\<close>

definition from_timespec :: "int \<times> int \<Rightarrow> int FSTime" where
  "from_timespec timespec = FSTime (fst timespec * 10 ^ 9 + snd timespec)"

text \<open>
  \<^verbatim>\<open>if self._value >= 0: return (self._value / 10**9, self._value % 10**9)\<close>
  \<^verbatim>\<open>abs_val = -self._value\<close>
  \<^verbatim>\<open>return (- (abs_val / 10**9), - (abs_val % 10**9))\<close>
\<close>

definition secs_nsecs :: "int FSTime \<Rightarrow> int \<times> int" where
  "secs_nsecs self =
     (if tvalue self \<ge> 0 then (tvalue self div 10 ^ 9, tvalue self mod 10 ^ 9)
      else let abs_val = - tvalue self
           in (- (abs_val div 10 ^ 9), - (abs_val mod 10 ^ 9)))"

text \<open>
  \<^verbatim>\<open>s_ns = self.secs_nsecs()\<close>
  \<^verbatim>\<open>if s_ns[0] > 0 or s_ns[1] >= 0: return s_ns\<close>
  \<^verbatim>\<open>return (s_ns[0] - 1, 10**9 + s_ns[1])\<close>
\<close>

definition to_timespec :: "int FSTime \<Rightarrow> int \<times> int" where
  "to_timespec self =
     (let s_ns = secs_nsecs self
      in if fst s_ns > 0 \<or> snd s_ns \<ge> 0 then s_ns
         else (fst s_ns - 1, 10 ^ 9 + snd s_ns))"

subsection \<open>Exceptions\<close>

text \<open>
  Every exception the modelled code can raise is a value. \<open>IOError_not_writable\<close> is
  \<^verbatim>\<open>IOError('select(fd) returned without being writable')\<close>; \<open>OSError\<close> and
  \<open>IOError_errno\<close> carry an \<^verbatim>\<open>errno\<close>; \<open>UnboundLocalError\<close> is the read of a local
  variable that was never assigned; \<open>ServerExited\<close> is
  \<^verbatim>\<open>Exception('server exited unexpectedly; see errors above')\<close> and \<open>ExpectedOk rl\<close> is
  \<^verbatim>\<open>Exception('expected "ok", got %r' % rl)\<close>.
\<close>

datatype error =
    IOError_not_writable
  | IOError_errno nat
  | OSError nat
  | UnboundLocalError
  | TypeError
  | AttributeError
  | ValueError
  | ServerExited
  | ExpectedOk string

definition EAGAIN :: nat where
  "EAGAIN = 11"

subsection \<open>stat\_result.from\_stat\_rep\<close>

text \<open>
  Python is dynamically typed, and \<^verbatim>\<open>from_stat_rep\<close> stores in \<^verbatim>\<open>_value\<close> whatever it is
  handed, so the values that flow through it are a datatype: an integer, a float (the
  type \<open>'f\<close>, on which the code does no arithmetic here), a \<^verbatim>\<open>(seconds, nanoseconds)\<close>
  pair of integers as the C module's \<^verbatim>\<open>lstat\<close> returns it, or an \<^verbatim>\<open>FSTime\<close> object.
\<close>

datatype 'f pyval =
    PyInt int
  | PyFloat 'f
  | PyTimespec "int \<times> int"
  | PyTime "'f pyval FSTime"

text \<open>
  \<^verbatim>\<open>FSTime.from_stat_time\<close>. The module \<^verbatim>\<open>bup._helpers\<close> is not part of the sources, so
  the truth value of \<^verbatim>\<open>_helpers.lstat\<close>, which selects the class body, is the parameter
  \<open>lstat\<close>. With it, \<^verbatim>\<open>from_stat_time(stat_time)\<close> is \<^verbatim>\<open>FSTime.from_timespec(stat_time)\<close>,
  which subscripts its argument: a float or an integer raises \<^verbatim>\<open>TypeError\<close>, an instance
  of the old-style class \<^verbatim>\<open>FSTime\<close> raises \<^verbatim>\<open>AttributeError\<close>. Without it,
  \<^verbatim>\<open>ts._value = stat_time\<close> stores the argument as it is.
\<close>

definition from_stat_time :: "bool \<Rightarrow> 'f pyval \<Rightarrow> error + 'f pyval" where
  "from_stat_time lstat stat_time =
     (if lstat then
        (case stat_time of
           PyTimespec timespec \<Rightarrow> Inr (PyTime (FSTime (PyInt (tvalue (from_timespec timespec)))))
         | PyInt _ \<Rightarrow> Inl TypeError
         | PyFloat _ \<Rightarrow> Inl TypeError
         | PyTime _ \<Rightarrow> Inl AttributeError)
      else Inr (PyTime (FSTime stat_time)))"

text \<open>The attributes of a \<^verbatim>\<open>stat_result\<close>, and of the \<^verbatim>\<open>os.stat_result\<close> it is built from.\<close>

record 'f stat_result =
  st_mode :: "'f pyval"
  st_ino :: "'f pyval"
  st_dev :: "'f pyval"
  st_nlink :: "'f pyval"
  st_uid :: "'f pyval"
  st_gid :: "'f pyval"
  st_rdev :: "'f pyval"
  st_size :: "'f pyval"
  st_atime :: "'f pyval"
  st_mtime :: "'f pyval"
  st_ctime :: "'f pyval"

text \<open>
  The native payload is either a tuple (what \<^verbatim>\<open>_helpers.lstat\<close> and \<^verbatim>\<open>_helpers.fstat\<close>
  return) or an \<^verbatim>\<open>os.stat_result\<close>, an object with named attributes that unpacks as a
  sequence of ten items.
\<close>

datatype 'f stat_rep =
    StatTuple "'f pyval list"
  | StatObject "'f stat_result"

text \<open>
  \<^verbatim>\<open>stat_result.from_stat_rep(st)\<close>; \<open>have_ns\<close> is \<^verbatim>\<open>_helpers._have_ns_fs_timestamps\<close>.
  The first branch unpacks eleven values from \<^verbatim>\<open>st\<close> (\<^verbatim>\<open>ValueError\<close> for any other
  length), the second reads the attributes of \<^verbatim>\<open>st\<close> (\<^verbatim>\<open>AttributeError\<close> on a tuple) and
  converts the three times; the common tail converts \<^verbatim>\<open>atime\<close>, \<^verbatim>\<open>mtime\<close>, \<^verbatim>\<open>ctime\<close>.
\<close>

definition from_stat_rep :: "bool \<Rightarrow> bool \<Rightarrow> 'f stat_rep \<Rightarrow> error + 'f stat_result" where
  "from_stat_rep have_ns lstat st =
     (case
        (if have_ns then
           (case st of
              StatTuple [mode, ino, dev, nlink, uid, gid, rdev, fsize, atime, mtime, ctime] \<Rightarrow>
                Inr ((mode, ino, dev, nlink, uid, gid, rdev, fsize), atime, mtime, ctime)
            | _ \<Rightarrow> Inl ValueError)
         else
           (case st of
              StatTuple _ \<Rightarrow> Inl AttributeError
            | StatObject ob \<Rightarrow>
                (case from_stat_time lstat (st_atime ob) of Inl e \<Rightarrow> Inl e | Inr atime \<Rightarrow>
                 case from_stat_time lstat (st_mtime ob) of Inl e \<Rightarrow> Inl e | Inr mtime \<Rightarrow>
                 case from_stat_time lstat (st_ctime ob) of Inl e \<Rightarrow> Inl e | Inr ctime \<Rightarrow>
                   Inr ((st_mode ob, st_ino ob, st_dev ob, st_nlink ob, st_uid ob,
                         st_gid ob, st_rdev ob, st_size ob), atime, mtime, ctime))))
      of
        Inl e \<Rightarrow> Inl e
      | Inr ((mode, ino, dev, nlink, uid, gid, rdev, fsize), atime, mtime, ctime) \<Rightarrow>
          (case from_stat_time lstat atime of Inl e \<Rightarrow> Inl e | Inr a \<Rightarrow>
           case from_stat_time lstat mtime of Inl e \<Rightarrow> Inl e | Inr m \<Rightarrow>
           case from_stat_time lstat ctime of Inl e \<Rightarrow> Inl e | Inr c \<Rightarrow>
             Inr \<lparr>st_mode = mode, st_ino = ino, st_dev = dev, st_nlink = nlink,
                  st_uid = uid, st_gid = gid, st_rdev = rdev, st_size = fsize,
                  st_atime = a, st_mtime = m, st_ctime = c\<rparr>))"

subsection \<open>\_hard\_write\<close>

text \<open>
  The descriptor is the environment of \<^verbatim>\<open>_hard_write\<close>: at its \<open>i\<close>-th turn of the loop
  it answers the \<^verbatim>\<open>select\<close> call (is \<^verbatim>\<open>fd\<close> in the list of writable descriptors?) and
  then the \<^verbatim>\<open>os.write\<close> call, which either accepts a number of bytes, \<open>Wrote n\<close> (at
  most the bytes offered, so \<open>n\<close> is capped by the length of the buffer), or raises
  \<^verbatim>\<open>OSError\<close> with an \<^verbatim>\<open>errno\<close>.
\<close>

datatype write_answer = Wrote nat | Raises nat

type_synonym descriptor = "nat \<Rightarrow> bool \<times> write_answer"

text \<open>
  \<^verbatim>\<open>while buf:\<close>
  \<^verbatim>\<open>    (r,w,x) = select.select([], [fd], [], None)\<close>
  \<^verbatim>\<open>    if not w: raise IOError('select(fd) returned without being writable')\<close>
  \<^verbatim>\<open>    try: sz = os.write(fd, buf)\<close>
  \<^verbatim>\<open>    except OSError, e:\<close>
  \<^verbatim>\<open>        if e.errno != errno.EAGAIN: raise\<close>
  \<^verbatim>\<open>    assert(sz >= 0)\<close>
  \<^verbatim>\<open>    buf = buf[sz:]\<close>
  The loop has no bound, so it is a partial function: \<open>None\<close> is a run that never
  returns. The state is the turn \<open>i\<close>, the local \<^verbatim>\<open>sz\<close> (\<open>None\<close> while unassigned),
  the bytes the descriptor has accepted so far and \<^verbatim>\<open>buf\<close>. The result pairs the outcome
  (\<open>Inr ()\<close> for a normal return) with the bytes accepted. After a swallowed \<^verbatim>\<open>EAGAIN\<close>
  the local \<^verbatim>\<open>sz\<close> is read as the previous turn left it. A \<open>nat\<close> is never negative, so
  the \<^verbatim>\<open>assert\<close> has no branch.
\<close>

partial_function (option) hard_write_loop ::
  "descriptor \<Rightarrow> nat \<Rightarrow> nat option \<Rightarrow> string \<Rightarrow> string \<Rightarrow> ((error + unit) \<times> string) option"
where
  "hard_write_loop fd i sz sent buf =
     (if buf = [] then Some (Inr (), sent)
      else if \<not> fst (fd i) then Some (Inl IOError_not_writable, sent)
      else (case snd (fd i) of
              Wrote n \<Rightarrow>
                hard_write_loop fd (Suc i) (Some (min n (length buf)))
                  (sent @ take (min n (length buf)) buf) (drop (min n (length buf)) buf)
            | Raises e \<Rightarrow>
                if e \<noteq> EAGAIN then Some (Inl (OSError e), sent)
                else (case sz of
                        None \<Rightarrow> Some (Inl UnboundLocalError, sent)
                      | Some z \<Rightarrow> hard_write_loop fd (Suc i) sz sent (drop z buf))))"

definition hard_write :: "descriptor \<Rightarrow> string \<Rightarrow> ((error + unit) \<times> string) option" where
  "hard_write fd buf = hard_write_loop fd 0 None [] buf"

subsection \<open>Conn\<close>

text \<open>
  A \<^verbatim>\<open>Conn\<close> holds two file objects. The input \<^verbatim>\<open>inp\<close> is the bytes the peer has sent
  and that are still unread, up to the end of the stream. The output \<^verbatim>\<open>outp\<close> is any
  object with a \<^verbatim>\<open>write\<close> and a \<^verbatim>\<open>flush\<close> method: its state has the type \<open>'o\<close>, and the
  two methods are the record \<open>file_methods\<close>. A call gives the outcome (\<open>Inr ()\<close> for a
  normal return, \<open>Inl e\<close> for the exception \<open>e\<close>) and the state the object is left in.
\<close>

record 'o file_methods =
  write_method :: "'o \<Rightarrow> string \<Rightarrow> (error + unit) \<times> 'o"
  flush_method :: "'o \<Rightarrow> (error + unit) \<times> 'o"

record 'o Conn =
  inp :: string
  outp :: 'o

text \<open>\<^verbatim>\<open>Conn.write\<close>: \<^verbatim>\<open>self.outp.write(data)\<close>\<close>

definition Conn_write ::
  "'o file_methods \<Rightarrow> 'o Conn \<Rightarrow> string \<Rightarrow> (error + unit) \<times> 'o Conn" where
  "Conn_write f self data =
     (case write_method f (outp self) data of
        (outcome, out) \<Rightarrow> (outcome, self\<lparr>outp := out\<rparr>))"

text \<open>\<^verbatim>\<open>Conn.ok\<close>: \<^verbatim>\<open>self.write('\nok\n')\<close>\<close>

definition Conn_ok :: "'o file_methods \<Rightarrow> 'o Conn \<Rightarrow> (error + unit) \<times> 'o Conn" where
  "Conn_ok f self = Conn_write f self ''\<newline>ok\<newline>''"

text \<open>
  The pattern \<^verbatim>\<open>\s\<close> of Python 2's \<^verbatim>\<open>re\<close> on a byte string, with no flags: space, tab,
  newline, carriage return, form feed, vertical tab.
\<close>

definition isspace :: "char \<Rightarrow> bool" where
  "isspace c \<longleftrightarrow> c \<in> {CHR '' '', CHR 0x09, CHR ''\<newline>'', CHR 0x0D, CHR 0x0C, CHR 0x0B}"

text \<open>
  \<^verbatim>\<open>re.sub(r'\s+', ' ', s)\<close>: scanning from the left, each match of \<^verbatim>\<open>\s+\<close> (greedy, so
  it runs to the next character that is not whitespace) is replaced by one space, and
  every other character is copied.
\<close>

function re_sub_spaces :: "string \<Rightarrow> string" where
  "re_sub_spaces [] = []"
| "re_sub_spaces (c # cs) =
     (if isspace c then CHR '' '' # re_sub_spaces (dropWhile isspace cs)
      else c # re_sub_spaces cs)"
  by pat_completeness auto
termination
  by (relation "measure length") (auto simp: length_dropWhile_le less_Suc_eq_le)

text \<open>
  \<^verbatim>\<open>Conn.error\<close>: \<^verbatim>\<open>s = re.sub(r'\s+', ' ', str(s))\<close>, then
  \<^verbatim>\<open>self.write('\nerror %s\n' % s)\<close>. The argument is a string, on which \<^verbatim>\<open>str\<close> is the
  identity.
\<close>

definition Conn_error ::
  "'o file_methods \<Rightarrow> 'o Conn \<Rightarrow> string \<Rightarrow> (error + unit) \<times> 'o Conn" where
  "Conn_error f self s =
     (let s = re_sub_spaces s
      in Conn_write f self (''\<newline>error '' @ s @ ''\<newline>''))"

text \<open>
  \<^verbatim>\<open>f.readline()\<close> on the unread bytes: the bytes up to and including the first
  newline, or all of them when there is none; the result is empty only at the end of
  the stream. The second component is what stays unread.
\<close>

fun readline :: "string \<Rightarrow> string \<times> string" where
  "readline [] = ([], [])"
| "readline (c # cs) =
     (if c = CHR ''\<newline>'' then ([c], cs)
      else (c # fst (readline cs), snd (readline cs)))"

text \<open>
  \<^verbatim>\<open>linereader(f)\<close>: the generator's values, in order. \<^verbatim>\<open>line[:-1]\<close> is \<open>butlast line\<close>.
  \<^verbatim>\<open>while 1:\<close>
  \<^verbatim>\<open>    line = f.readline()\<close>
  \<^verbatim>\<open>    if not line: break\<close>
  \<^verbatim>\<open>    yield line[:-1]\<close>
\<close>

function linereader :: "string \<Rightarrow> string list" where
  "linereader f =
     (let line = fst (readline f)
      in if line = [] then [] else butlast line # linereader (snd (readline f)))"
  by pat_completeness auto
termination
proof (relation "measure length")
  show "wf (measure length)" by simp
next
  fix f line
  assume "line = fst (readline f)" and "line \<noteq> []"
  then have "f \<noteq> []" by auto
  moreover have "length (snd (readline g)) \<le> length g" for g
    by (induction g) auto
  ultimately have "length (snd (readline f)) < length f"
    by (cases f) (auto simp: less_Suc_eq_le)
  then show "(snd (readline f), f) \<in> measure length" by simp
qed

text \<open>
  The values that the calls of \<^verbatim>\<open>f.readline()\<close> return one after the other, up to the
  empty one that marks the end of the stream.
\<close>

function readline_values :: "string \<Rightarrow> string list" where
  "readline_values f =
     (if fst (readline f) = [] then []
      else fst (readline f) # readline_values (snd (readline f)))"
  by pat_completeness auto
termination
proof (relation "measure length")
  show "wf (measure length)" by simp
next
  fix f
  assume "fst (readline f) \<noteq> []"
  then have "f \<noteq> []" by auto
  moreover have "length (snd (readline g)) \<le> length g" for g
    by (induction g) auto
  ultimately have "length (snd (readline f)) < length f"
    by (cases f) (auto simp: less_Suc_eq_le)
  then show "(snd (readline f), f) \<in> measure length" by simp
qed

text \<open>\<^verbatim>\<open>class NotOk(Exception)\<close>, built with the message as its argument.\<close>

datatype NotOk = NotOk string

text \<open>
  The \<^verbatim>\<open>for\<close> loop of \<^verbatim>\<open>Conn._check_ok\<close> over the lines the generator yields, with the
  \<^verbatim>\<open>raise\<close> that follows it. \<^verbatim>\<open>return None\<close> is \<open>Inr None\<close>, \<^verbatim>\<open>return NotOk(rl[6:])\<close> is
  \<open>Inr (Some (NotOk (drop 6 rl)))\<close>; the handler \<^verbatim>\<open>onempty\<close> returns or raises.
  \<^verbatim>\<open>if not rl: continue\<close>
  \<^verbatim>\<open>elif rl == 'ok': return None\<close>
  \<^verbatim>\<open>elif rl.startswith('error '): return NotOk(rl[6:])\<close>
  \<^verbatim>\<open>else: onempty(rl)\<close>
\<close>

fun check_ok_loop :: "(string \<Rightarrow> error + unit) \<Rightarrow> string list \<Rightarrow> error + NotOk option" where
  "check_ok_loop onempty [] = Inl ServerExited"
| "check_ok_loop onempty (rl # rls) =
     (if rl = [] then check_ok_loop onempty rls
      else if rl = ''ok'' then Inr None
      else if prefix ''error '' rl then Inr (Some (NotOk (drop 6 rl)))
      else (case onempty rl of
              Inl e \<Rightarrow> Inl e
            | Inr _ \<Rightarrow> check_ok_loop onempty rls))"

text \<open>
  \<^verbatim>\<open>Conn._check_ok(onempty)\<close>: \<^verbatim>\<open>self.outp.flush()\<close>, then the loop over
  \<^verbatim>\<open>linereader(self.inp)\<close>. The result is the value returned or the exception raised
  (the state the two file objects are left in is not part of it).
\<close>

definition Conn_check_ok_with ::
  "'o file_methods \<Rightarrow> 'o Conn \<Rightarrow> (string \<Rightarrow> error + unit) \<Rightarrow> error + NotOk option" where
  "Conn_check_ok_with f self onempty =
     (case fst (flush_method f (outp self)) of
        Inl e \<Rightarrow> Inl e
      | Inr _ \<Rightarrow> check_ok_loop onempty (linereader (inp self)))"

text \<open>\<^verbatim>\<open>Conn.drain_and_check_ok\<close>: the handler is \<^verbatim>\<open>pass\<close>.\<close>

definition drain_and_check_ok :: "'o file_methods \<Rightarrow> 'o Conn \<Rightarrow> error + NotOk option" where
  "drain_and_check_ok f self = Conn_check_ok_with f self (\<lambda>rl. Inr ())"

text \<open>\<^verbatim>\<open>Conn.check_ok\<close>: the handler is \<^verbatim>\<open>raise Exception('expected "ok", got %r' % rl)\<close>.\<close>

definition check_ok :: "'o file_methods \<Rightarrow> 'o Conn \<Rightarrow> error + NotOk option" where
  "check_ok f self = Conn_check_ok_with f self (\<lambda>rl. Inl (ExpectedOk rl))"

subsection \<open>The specification's wording of whitespace collapsing\<close>

text \<open>
  The specification describes the message written by \<^verbatim>\<open>Conn.error\<close> as the argument
  with every maximal run of whitespace characters replaced by a single space. This is
  that description, independent of \<open>re_sub_spaces\<close>: \<open>spec_runs\<close> cuts a string into
  its maximal runs of characters that are all whitespace or all not, and
  \<open>spec_collapse\<close> replaces each whitespace run by one space.
\<close>

function spec_runs :: "string \<Rightarrow> string list" where
  "spec_runs [] = []"
| "spec_runs (c # cs) =
     (c # takeWhile (\<lambda>d. isspace d = isspace c) cs)
       # spec_runs (dropWhile (\<lambda>d. isspace d = isspace c) cs)"
  by pat_completeness auto
termination
  by (relation "measure length") (auto simp: length_dropWhile_le less_Suc_eq_le)

definition spec_collapse :: "string \<Rightarrow> string" where
  "spec_collapse m = concat (map (\<lambda>r. if isspace (hd r) then '' '' else r) (spec_runs m))"

subsection \<open>File objects used as concrete inputs\<close>

text \<open>
  An in-memory file: \<^verbatim>\<open>write\<close> appends to the bytes written so far, \<^verbatim>\<open>flush\<close> does
  nothing, and neither raises.
\<close>

definition memory_file :: "string file_methods" where
  "memory_file =
     \<lparr>write_method = (\<lambda>out data. (Inr (), out @ data)),
      flush_method = (\<lambda>out. (Inr (), out))\<rparr>"

text \<open>
  A file object over a non-blocking descriptor that is full for the moment. Its state
  is whether it is still full, and the bytes it has taken. While it is full, \<^verbatim>\<open>write\<close>
  raises \<^verbatim>\<open>IOError\<close> with \<^verbatim>\<open>EAGAIN\<close> and takes nothing; it has room from the next call on.
\<close>

definition busy_pipe :: "(bool \<times> string) file_methods" where
  "busy_pipe =
     \<lparr>write_method = (\<lambda>(full, taken) data.
        if full then (Inl (IOError_errno EAGAIN), (False, taken))
        else (Inr (), (False, taken @ data))),
      flush_method = (\<lambda>out. (Inr (), out))\<rparr>"

declare hard_write_loop.simps [code]

declare linereader.simps [simp del]

declare readline_values.simps [simp del]

section \<open>Timestamps\<close>

subsection \<open>to\_timespec, case by case\<close>

lemma to_timespec_nonneg:
  "0 \<le> v \<Longrightarrow> to_timespec (FSTime v) = (v div 10 ^ 9, v mod 10 ^ 9)"
  by (simp add: to_timespec_def secs_nsecs_def)

lemma to_timespec_neg_whole:
  assumes "v < 0" and "(- v) mod 10 ^ 9 = 0"
  shows "to_timespec (FSTime v) = (- ((- v) div 10 ^ 9), 0)"
  using assms by (simp add: to_timespec_def secs_nsecs_def Let_def)

lemma to_timespec_neg_frac:
  assumes "v < 0" and "(- v) mod 10 ^ 9 \<noteq> 0"
  shows "to_timespec (FSTime v) = (- ((- v) div 10 ^ 9) - 1, 10 ^ 9 - (- v) mod 10 ^ 9)"
proof -
  have pos: "0 < (- v) mod (10 ^ 9 :: int)"
    using assms(2) pos_mod_sign [of "10 ^ 9 :: int" "- v"] by simp
  have "0 \<le> (- v) div (10 ^ 9 :: int)"
    using assms(1) by (simp add: pos_imp_zdiv_nonneg_iff)
  with pos assms(1) show ?thesis
    by (simp add: to_timespec_def secs_nsecs_def Let_def)
qed

lemma to_timespec_value:
  "fst (to_timespec (FSTime v)) * 10 ^ 9 + snd (to_timespec (FSTime v)) = v"
proof -
  consider "0 \<le> v" | "v < 0" "(- v) mod 10 ^ 9 = 0" | "v < 0" "(- v) mod 10 ^ 9 \<noteq> 0"
    by linarith
  then show ?thesis
  proof cases
    case 1
    then show ?thesis by (simp add: to_timespec_nonneg)
  next
    case 2
    have "(- v) div 10 ^ 9 * 10 ^ 9 + (- v) mod 10 ^ 9 = - v"
      by (rule div_mult_mod_eq)
    with 2 show ?thesis by (simp add: to_timespec_neg_whole)
  next
    case 3
    have "(- v) div 10 ^ 9 * 10 ^ 9 + (- v) mod 10 ^ 9 = - v"
      by (rule div_mult_mod_eq)
    with 3 show ?thesis by (simp add: to_timespec_neg_frac algebra_simps)
  qed
qed

lemma to_timespec_range:
  "0 \<le> snd (to_timespec (FSTime v)) \<and> snd (to_timespec (FSTime v)) < 10 ^ 9"
proof -
  consider "0 \<le> v" | "v < 0" "(- v) mod 10 ^ 9 = 0" | "v < 0" "(- v) mod 10 ^ 9 \<noteq> 0"
    by linarith
  then show ?thesis
  proof cases
    case 1
    then show ?thesis by (simp add: to_timespec_nonneg)
  next
    case 2
    then show ?thesis by (simp add: to_timespec_neg_whole)
  next
    case 3
    have "0 \<le> (- v) mod (10 ^ 9 :: int)" by simp
    with 3 have "0 < (- v) mod (10 ^ 9 :: int)" by linarith
    with 3 show ?thesis by (simp add: to_timespec_neg_frac)
  qed
qed

text \<open>
  When \<^verbatim>\<open>secs_nsecs\<close> gives a negative nanosecond part, its seconds part is not
  positive, so \<^verbatim>\<open>to_timespec\<close> takes its second \<^verbatim>\<open>return\<close>.
\<close>

lemma to_timespec_borrow:
  assumes "snd (secs_nsecs t) < 0"
  shows "to_timespec t = (fst (secs_nsecs t) - 1, 10 ^ 9 + snd (secs_nsecs t))"
proof -
  have neg: "tvalue t < 0"
    using assms by (auto simp: secs_nsecs_def split: if_splits)
  then have "0 \<le> (- tvalue t) div (10 ^ 9 :: int)"
    by (simp add: pos_imp_zdiv_nonneg_iff)
  with neg have "fst (secs_nsecs t) \<le> 0"
    by (simp add: secs_nsecs_def Let_def)
  with assms show ?thesis
    by (simp add: to_timespec_def Let_def)
qed

text \<open>
  C1. For every nanosecond count \<open>n\<close>, negative ones included, and every pair
  \<open>(s0, ns0)\<close> with \<open>s0 * 10^9 + ns0 = n\<close>: \<^verbatim>\<open>from_timespec\<close> followed by \<^verbatim>\<open>to_timespec\<close>
  gives a pair \<open>(s, ns)\<close> with \<open>0 \<le> ns < 10^9\<close> and \<open>s * 10^9 + ns = n\<close>. Where
  \<^verbatim>\<open>secs_nsecs\<close> has a negative nanosecond part, the result is its seconds part less
  one, and its nanosecond part plus \<open>10^9\<close>.
\<close>

theorem fstime_timespec_roundtrip:
  assumes "s0 * 10 ^ 9 + ns0 = n"
    and "to_timespec (from_timespec (s0, ns0)) = (s, ns)"
  shows "0 \<le> ns \<and> ns < 10 ^ 9 \<and> s * 10 ^ 9 + ns = n \<and>
    (snd (secs_nsecs (from_timespec (s0, ns0))) < 0 \<longrightarrow>
       s = fst (secs_nsecs (from_timespec (s0, ns0))) - 1 \<and>
       ns = 10 ^ 9 + snd (secs_nsecs (from_timespec (s0, ns0))))"
proof -
  have t: "to_timespec (FSTime n) = (s, ns)"
    using assms by (simp add: from_timespec_def)
  have "0 \<le> ns \<and> ns < 10 ^ 9"
    using to_timespec_range [of n] t by simp
  moreover have "s * 10 ^ 9 + ns = n"
    using to_timespec_value [of n] t by simp
  moreover have "s = fst (secs_nsecs (from_timespec (s0, ns0))) - 1 \<and>
      ns = 10 ^ 9 + snd (secs_nsecs (from_timespec (s0, ns0)))"
    if "snd (secs_nsecs (from_timespec (s0, ns0))) < 0"
    using to_timespec_borrow [OF that] assms(2) by simp
  ultimately show ?thesis by blast
qed

theorem fstime_timespec_roundtrip_witness:
  "to_timespec (from_timespec (- 1, - 500000000)) = (- 2, 500000000) \<and>
   snd (secs_nsecs (from_timespec (- 1, - 500000000))) < 0 \<and>
   (- 2) * 10 ^ 9 + 500000000 = (- 1500000000 :: int)"
proof -
  have n: "(- 1) * 10 ^ 9 + (- 500000000) = (- 1500000000 :: int)"
    by simp
  have t: "to_timespec (from_timespec (- 1, - 500000000)) = (- 2, 500000000)"
    by (simp add: to_timespec_def secs_nsecs_def from_timespec_def)
  have b: "snd (secs_nsecs (from_timespec (- 1, - 500000000))) < 0"
    by (simp add: secs_nsecs_def from_timespec_def)
  from fstime_timespec_roundtrip [OF n t] t b show ?thesis
    by simp
qed

section \<open>The stat\_result factory\<close>

text \<open>
  With nanosecond timestamps (\<^verbatim>\<open>_helpers.lstat\<close> present, the payload a tuple whose
  times are \<^verbatim>\<open>(seconds, nanoseconds)\<close> pairs) each time is converted once: the field is
  an \<^verbatim>\<open>FSTime\<close> whose \<^verbatim>\<open>_value\<close> is the integer nanosecond count.
\<close>

lemma from_stat_rep_ns:
  "from_stat_rep True True
     (StatTuple [mode, ino, dev, nlink, uid, gid, rdev, fsize,
                 PyTimespec a, PyTimespec m, PyTimespec c]) =
   Inr \<lparr>st_mode = mode, st_ino = ino, st_dev = dev, st_nlink = nlink, st_uid = uid,
        st_gid = gid, st_rdev = rdev, st_size = fsize,
        st_atime = PyTime (FSTime (PyInt (fst a * 10 ^ 9 + snd a))),
        st_mtime = PyTime (FSTime (PyInt (fst m * 10 ^ 9 + snd m))),
        st_ctime = PyTime (FSTime (PyInt (fst c * 10 ^ 9 + snd c)))\<rparr>"
  by (simp add: from_stat_rep_def from_stat_time_def from_timespec_def)

text \<open>
  Without them, whatever the times of the \<^verbatim>\<open>os.stat_result\<close> are, each is converted in
  the \<^verbatim>\<open>else\<close> branch and again in the common tail.
\<close>

lemma from_stat_rep_float:
  "from_stat_rep False False (StatObject ob) =
   Inr (ob\<lparr>st_atime := PyTime (FSTime (PyTime (FSTime (st_atime ob)))),
            st_mtime := PyTime (FSTime (PyTime (FSTime (st_mtime ob)))),
            st_ctime := PyTime (FSTime (PyTime (FSTime (st_ctime ob))))\<rparr>)"
  by (simp add: from_stat_rep_def from_stat_time_def)

text \<open>
  With \<^verbatim>\<open>_helpers.lstat\<close> present but no nanosecond timestamps, the float times of an
  \<^verbatim>\<open>os.stat_result\<close> reach \<^verbatim>\<open>FSTime.from_timespec\<close>, which subscripts them.
\<close>

lemma from_stat_rep_mixed:
  "from_stat_rep False True
     (StatObject \<lparr>st_mode = mode, st_ino = ino, st_dev = dev, st_nlink = nlink,
        st_uid = uid, st_gid = gid, st_rdev = rdev, st_size = fsize,
        st_atime = PyFloat a, st_mtime = PyFloat m, st_ctime = PyFloat c\<rparr>) =
   Inl TypeError"
  by (simp add: from_stat_rep_def from_stat_time_def)

text \<open>
  C2. The claim: for every native stat payload, \<^verbatim>\<open>from_stat_rep\<close> gives a result whose
  \<^verbatim>\<open>st_atime\<close>, \<^verbatim>\<open>st_mtime\<close> and \<^verbatim>\<open>st_ctime\<close> are \<^verbatim>\<open>FSTime\<close> values representing the native
  times, of the same shape with and without nanosecond timestamps. On a platform
  without them, for an \<^verbatim>\<open>os.stat_result\<close> with the float times \<open>a\<close>, \<open>m\<close>, \<open>c\<close>, each field
  is an \<^verbatim>\<open>FSTime\<close> whose \<^verbatim>\<open>_value\<close> is a second \<^verbatim>\<open>FSTime\<close>, which holds the float.
\<close>

theorem from_stat_rep_wraps_twice:
  "from_stat_rep False False
     (StatObject \<lparr>st_mode = PyInt 33188, st_ino = PyInt 7, st_dev = PyInt 2049,
        st_nlink = PyInt 1, st_uid = PyInt 1000, st_gid = PyInt 1000, st_rdev = PyInt 0,
        st_size = PyInt 12,
        st_atime = PyFloat a, st_mtime = PyFloat m, st_ctime = PyFloat c\<rparr>) =
   Inr \<lparr>st_mode = PyInt 33188, st_ino = PyInt 7, st_dev = PyInt 2049,
        st_nlink = PyInt 1, st_uid = PyInt 1000, st_gid = PyInt 1000, st_rdev = PyInt 0,
        st_size = PyInt 12,
        st_atime = PyTime (FSTime (PyTime (FSTime (PyFloat a)))),
        st_mtime = PyTime (FSTime (PyTime (FSTime (PyFloat m)))),
        st_ctime = PyTime (FSTime (PyTime (FSTime (PyFloat c))))\<rparr>"
  by (simp add: from_stat_rep_def from_stat_time_def)

section \<open>Writing\<close>

subsection \<open>The loop of \_hard\_write\<close>

text \<open>
  When every poll finds the descriptor writable and every \<^verbatim>\<open>os.write\<close> accepts at least
  one byte, the loop returns and the descriptor has accepted the buffer.
\<close>

lemma hard_write_loop_progress:
  assumes "\<forall>j. fst (fd j) \<and> (\<exists>n>0. snd (fd j) = Wrote n)"
  shows "hard_write_loop fd i sz sent buf = Some (Inr (), sent @ buf)"
proof (induction "length buf" arbitrary: i sz sent buf rule: less_induct)
  case less
  show ?case
  proof (cases "buf = []")
    case True
    then show ?thesis by (simp add: hard_write_loop.simps)
  next
    case False
    from assms obtain n where w: "fst (fd i)" and n: "0 < n" "snd (fd i) = Wrote n"
      by blast
    let ?k = "min n (length buf)"
    from False n(1) have k: "0 < ?k" by simp
    then have "length (drop ?k buf) < length buf"
      using False by simp
    from less [OF this]
    have "hard_write_loop fd (Suc i) (Some ?k) (sent @ take ?k buf) (drop ?k buf) =
        Some (Inr (), (sent @ take ?k buf) @ drop ?k buf)" .
    then show ?thesis
      using False w n(2) by (subst hard_write_loop.simps) simp
  qed
qed

lemma hard_write_loop_not_writable:
  "buf \<noteq> [] \<Longrightarrow> \<not> fst (fd i) \<Longrightarrow>
   hard_write_loop fd i sz sent buf = Some (Inl IOError_not_writable, sent)"
  by (subst hard_write_loop.simps) simp

text \<open>
  A run that returns from a turn after which the descriptor is always writable and
  always accepts zero bytes started with an empty buffer: by induction on the loop.
\<close>

lemma hard_write_loop_returns_progress:
  assumes "hard_write_loop fd i sz sent buf = Some r"
  shows "(\<forall>j\<ge>i. fd j = (True, Wrote 0)) \<longrightarrow> buf = []"
  using assms
proof (induction fd i sz sent buf r rule: hard_write_loop.raw_induct [rotated 1, consumes 1])
  case (1 loop fd i sz sent buf r)
  show ?case
  proof (intro impI)
    assume all: "\<forall>j\<ge>i. fd j = (True, Wrote 0)"
    show "buf = []"
    proof (rule ccontr)
      assume ne: "buf \<noteq> []"
      from all have here: "fd i = (True, Wrote 0)" by simp
      from all have later: "\<forall>j\<ge>Suc i. fd j = (True, Wrote 0)" by simp
      from 1(2) ne here have "loop fd (Suc i) (Some 0) sent buf = Some r" by simp
      from 1(1) [OF this] later have "buf = []" by simp
      with ne show False by simp
    qed
  qed
qed

lemma hard_write_loop_no_progress:
  assumes "\<forall>j. fd j = (True, Wrote 0)" and "buf \<noteq> []"
  shows "hard_write_loop fd i sz sent buf = None"
proof (cases "hard_write_loop fd i sz sent buf")
  case None
  then show ?thesis .
next
  case (Some r)
  from hard_write_loop_returns_progress [OF Some] assms show ?thesis by simp
qed

text \<open>
  The \<^verbatim>\<open>except\<close> branch swallows \<^verbatim>\<open>EAGAIN\<close> and falls through to \<^verbatim>\<open>buf = buf[sz:]\<close> with
  the \<^verbatim>\<open>sz\<close> of the turn before: here \<^verbatim>\<open>cd\<close> is dropped from the buffer without having
  been written. On the first turn \<^verbatim>\<open>sz\<close> is unassigned.
\<close>

lemma hard_write_eagain_skips_bytes:
  "hard_write (\<lambda>i. if i = 1 then (True, Raises EAGAIN) else (True, Wrote 2)) ''abcde'' =
   Some (Inr (), ''abe'')"
  by (simp add: hard_write_def hard_write_loop.simps)

lemma hard_write_eagain_first_turn:
  "buf \<noteq> [] \<Longrightarrow> fd 0 = (True, Raises EAGAIN) \<Longrightarrow>
   hard_write fd buf = Some (Inl UnboundLocalError, [])"
  unfolding hard_write_def by (subst hard_write_loop.simps) simp

subsection \<open>Conn.write\<close>

text \<open>
  C3, as amended. \<^verbatim>\<open>Conn.write(data)\<close> is one call of the \<^verbatim>\<open>write\<close> method of \<^verbatim>\<open>outp\<close>
  with \<^verbatim>\<open>data\<close>: its outcome is that call's outcome and \<^verbatim>\<open>outp\<close> is left as that call
  leaves it; it neither polls nor retries. The polling writer is \<^verbatim>\<open>_hard_write\<close>: when
  every poll reports the descriptor writable and every \<^verbatim>\<open>os.write\<close> accepts at least one
  byte, it returns normally and the descriptor has accepted exactly the buffer.
\<close>

theorem conn_write_single_call:
  "Conn_write f self data =
     (fst (write_method f (outp self) data),
      self\<lparr>outp := snd (write_method f (outp self) data)\<rparr>) \<and>
   ((\<forall>j. fst (fd j) \<and> (\<exists>n>0. snd (fd j) = Wrote n)) \<longrightarrow>
      hard_write fd buf = Some (Inr (), buf))"
  using hard_write_loop_progress [of fd 0 None "[]" buf]
  by (simp add: Conn_write_def hard_write_def split: prod.splits)

theorem conn_write_single_call_witness:
  "Conn_write memory_file \<lparr>inp = [], outp = ''x''\<rparr> ''abc'' =
     (Inr (), \<lparr>inp = [], outp = ''xabc''\<rparr>) \<and>
   hard_write (\<lambda>i. (True, Wrote 2)) ''abcde'' = Some (Inr (), ''abcde'')"
  using conn_write_single_call [of memory_file "\<lparr>inp = [], outp = ''x''\<rparr>" "''abc''"
      "\<lambda>i. (True, Wrote 2)" "''abcde''"]
  by (simp add: memory_file_def)

text \<open>
  C3 as stated fails: on a descriptor that rejects one write with \<^verbatim>\<open>EAGAIN\<close> and has
  room afterwards, \<^verbatim>\<open>Conn.write('abc')\<close> raises, and no byte has been sent.
\<close>

theorem conn_write_no_retry_counterexample:
  "Conn_write busy_pipe \<lparr>inp = [], outp = (True, [])\<rparr> ''abc'' =
     (Inl (IOError_errno EAGAIN), \<lparr>inp = [], outp = (False, [])\<rparr>)"
  by (simp add: Conn_write_def busy_pipe_def)

subsection \<open>Polls and progress\<close>

text \<open>
  C4, as amended. At any turn of \<^verbatim>\<open>_hard_write\<close> with bytes left, a poll that does not
  report the descriptor writable raises the \<^verbatim>\<open>IOError\<close> at once. On a descriptor that is
  always reported writable and accepts zero bytes at every attempt, \<^verbatim>\<open>_hard_write\<close> with
  a non-empty buffer never returns and raises nothing.
\<close>

theorem hard_write_poll_and_no_progress:
  "(buf \<noteq> [] \<and> \<not> fst (fd i) \<longrightarrow>
      hard_write_loop fd i sz sent buf = Some (Inl IOError_not_writable, sent)) \<and>
   (buf' \<noteq> [] \<and> (\<forall>j. fd' j = (True, Wrote 0)) \<longrightarrow> hard_write fd' buf' = None)"
  using hard_write_loop_not_writable [of buf fd i sz sent]
    hard_write_loop_no_progress [of fd' buf' 0 None "[]"]
  by (simp add: hard_write_def)

theorem hard_write_poll_and_no_progress_witness:
  "hard_write_loop (\<lambda>i. (i = 0, Wrote 1)) 1 (Some 1) ''a'' ''bc'' =
     Some (Inl IOError_not_writable, ''a'') \<and>
   hard_write (\<lambda>i. (True, Wrote 0)) ''a'' = None"
  using hard_write_poll_and_no_progress [of "''bc''" "\<lambda>i. (i = 0, Wrote 1)" 1 "Some 1" "''a''"
      "''a''" "\<lambda>i. (True, Wrote 0)"]
  by simp

text \<open>
  C4 as stated fails: on such a descriptor, \<^verbatim>\<open>_hard_write(fd, 'a')\<close> has no result.
\<close>

theorem hard_write_zero_bytes_counterexample:
  "hard_write (\<lambda>i. (True, Wrote 0)) ''a'' = None"
  unfolding hard_write_def by (rule hard_write_loop_no_progress) simp_all

section \<open>Reading lines\<close>

subsection \<open>readline and linereader\<close>

lemma readline_line:
  "CHR ''\<newline>'' \<notin> set l \<Longrightarrow> readline (l @ CHR ''\<newline>'' # rest) = (l @ ''\<newline>'', rest)"
  by (induction l) auto

lemma readline_unterminated:
  "CHR ''\<newline>'' \<notin> set t \<Longrightarrow> readline t = (t, [])"
  by (induction t) auto

lemma linereader_Nil: "linereader [] = []"
  by (subst linereader.simps) simp

lemma linereader_line:
  "CHR ''\<newline>'' \<notin> set l \<Longrightarrow> linereader (l @ CHR ''\<newline>'' # rest) = l # linereader rest"
  by (subst linereader.simps) (simp add: readline_line)

lemma linereader_unterminated:
  "CHR ''\<newline>'' \<notin> set t \<Longrightarrow> t \<noteq> [] \<Longrightarrow> linereader t = [butlast t]"
  by (subst linereader.simps) (simp add: readline_unterminated linereader_Nil)

lemma linereader_blank_lines:
  "linereader (replicate k CHR ''\<newline>'' @ rest) = replicate k [] @ linereader rest"
proof (induction k)
  case 0
  then show ?case by simp
next
  case (Suc k)
  have "linereader ([] @ CHR ''\<newline>'' # replicate k CHR ''\<newline>'' @ rest) =
      [] # linereader (replicate k CHR ''\<newline>'' @ rest)"
    by (rule linereader_line) simp
  with Suc show ?case by simp
qed

lemma linereader_lines:
  "\<forall>l\<in>set ls. CHR ''\<newline>'' \<notin> set l \<Longrightarrow>
   linereader (concat (map (\<lambda>l. l @ ''\<newline>'') ls) @ rest) = ls @ linereader rest"
  by (induction ls) (simp_all add: linereader_line)

lemma linereader_readline_values: "linereader f = map butlast (readline_values f)"
proof (induction f rule: linereader.induct)
  case (1 f)
  show ?case
  proof (cases "fst (readline f) = []")
    case True
    then show ?thesis
      by (subst linereader.simps, subst readline_values.simps) simp
  next
    case False
    with 1 have "linereader (snd (readline f)) = map butlast (readline_values (snd (readline f)))"
      by simp
    with False show ?thesis
      by (subst linereader.simps, subst readline_values.simps) (simp add: Let_def)
  qed
qed

subsection \<open>The scanning loop\<close>

lemma check_ok_loop_blank_lines:
  "check_ok_loop onempty (replicate k [] @ rls) = check_ok_loop onempty rls"
  by (induction k) simp_all

lemma check_ok_loop_drain:
  "\<forall>rl\<in>set rls. rl \<noteq> ''ok'' \<and> \<not> prefix ''error '' rl \<Longrightarrow>
   check_ok_loop (\<lambda>rl. Inr ()) rls = Inl ServerExited"
  by (induction rls) auto

lemma check_ok_loop_strict:
  "\<forall>rl\<in>set rls. rl \<noteq> ''ok'' \<and> \<not> prefix ''error '' rl \<Longrightarrow>
   check_ok_loop (\<lambda>rl. Inl (ExpectedOk rl)) rls =
     (case filter (\<lambda>rl. rl \<noteq> []) rls of
        [] \<Rightarrow> Inl ServerExited
      | g # _ \<Rightarrow> Inl (ExpectedOk g))"
  by (induction rls) auto

lemma check_ok_loop_raises:
  "\<forall>rl\<in>set rls. rl \<noteq> ''ok'' \<and> \<not> prefix ''error '' rl \<Longrightarrow>
   \<exists>e. check_ok_loop onempty rls = Inl e"
  by (induction rls) (auto split: sum.splits)

lemma check_ok_loop_NotOk:
  "check_ok_loop onempty rls = Inr (Some (NotOk m)) \<Longrightarrow>
   \<exists>rl\<in>set rls. rl = ''error '' @ m"
proof (induction rls)
  case Nil
  then show ?case by simp
next
  case (Cons rl rls)
  show ?case
  proof (cases "rl \<noteq> [] \<and> rl \<noteq> ''ok'' \<and> prefix ''error '' rl")
    case True
    then obtain zs where "rl = ''error '' @ zs" by (auto simp: prefix_def)
    with True Cons.prems show ?thesis by simp
  next
    case False
    with Cons.prems have "check_ok_loop onempty rls = Inr (Some (NotOk m))"
      by (auto split: if_splits sum.splits)
    with Cons.IH show ?thesis by auto
  qed
qed

section \<open>Completion scanning\<close>

text \<open>
  In the theorems of this section the \<^verbatim>\<open>flush\<close> of the output file, with which
  \<^verbatim>\<open>_check_ok\<close> begins, returns normally; were it to raise, that exception would be
  the outcome.
\<close>

subsection \<open>An unexpected line\<close>

text \<open>
  C5. For every line \<open>g\<close> that is not blank, is not \<^verbatim>\<open>ok\<close> and does not begin with
  \<^verbatim>\<open>error \<close>, and every input that consists of any number of blank lines, the line
  \<open>g\<close>, a blank line, the line \<^verbatim>\<open>ok\<close> and anything after it:
  \<^verbatim>\<open>drain_and_check_ok\<close> returns \<^verbatim>\<open>None\<close>, and \<^verbatim>\<open>check_ok\<close> raises the exception
  \<^verbatim>\<open>expected "ok", got g\<close>, which is raised and not a returned \<^verbatim>\<open>NotOk\<close>.
\<close>

theorem unexpected_line_lenient_and_strict:
  assumes "fst (flush_method f out) = Inr ()"
    and "g \<noteq> []" and "CHR ''\<newline>'' \<notin> set g"
    and "g \<noteq> ''ok''" and "\<not> prefix ''error '' g"
  shows "drain_and_check_ok f
           \<lparr>inp = replicate k CHR ''\<newline>'' @ g @ ''\<newline>\<newline>ok\<newline>'' @ rest, outp = out\<rparr> = Inr None \<and>
         check_ok f
           \<lparr>inp = replicate k CHR ''\<newline>'' @ g @ ''\<newline>\<newline>ok\<newline>'' @ rest, outp = out\<rparr> =
           Inl (ExpectedOk g)"
proof -
  have "linereader (g @ CHR ''\<newline>'' # ''\<newline>ok\<newline>'' @ rest) =
      g # linereader (''\<newline>ok\<newline>'' @ rest)"
    using assms(3) by (rule linereader_line)
  moreover have "linereader ([] @ CHR ''\<newline>'' # ''ok\<newline>'' @ rest) = [] # linereader (''ok\<newline>'' @ rest)"
    by (rule linereader_line) simp
  moreover have "linereader (''ok'' @ CHR ''\<newline>'' # rest) = ''ok'' # linereader rest"
    by (rule linereader_line) simp
  ultimately have lines: "linereader (replicate k CHR ''\<newline>'' @ g @ ''\<newline>\<newline>ok\<newline>'' @ rest) =
      replicate k [] @ g # [] # ''ok'' # linereader rest"
    by (simp add: linereader_blank_lines)
  show ?thesis
    using assms(1,2,4,5) lines
    by (simp add: drain_and_check_ok_def check_ok_def Conn_check_ok_with_def
        check_ok_loop_blank_lines)
qed

theorem unexpected_line_lenient_and_strict_witness:
  "drain_and_check_ok memory_file \<lparr>inp = ''garbage\<newline>\<newline>ok\<newline>'', outp = []\<rparr> = Inr None \<and>
   check_ok memory_file \<lparr>inp = ''garbage\<newline>\<newline>ok\<newline>'', outp = []\<rparr> =
     Inl (ExpectedOk ''garbage'')"
proof -
  have "fst (flush_method memory_file []) = Inr ()"
    by (simp add: memory_file_def)
  from unexpected_line_lenient_and_strict [OF this, of "''garbage''" 0 "[]"]
  show ?thesis by simp
qed

subsection \<open>A peer-reported error\<close>

text \<open>
  C6. For every message \<open>m\<close> without a newline, every handler, and every input that
  consists of any number of blank lines and then the line \<^verbatim>\<open>error \<close> followed by \<open>m\<close>:
  the scan returns \<^verbatim>\<open>NotOk(m)\<close>, it does not raise. With the line \<^verbatim>\<open>ok\<close> in that place
  it returns \<^verbatim>\<open>None\<close>.
\<close>

theorem peer_error_returned:
  assumes "fst (flush_method f out) = Inr ()" and "CHR ''\<newline>'' \<notin> set m"
  shows "Conn_check_ok_with f
           \<lparr>inp = replicate k CHR ''\<newline>'' @ ''error '' @ m @ ''\<newline>'' @ rest, outp = out\<rparr> onempty =
           Inr (Some (NotOk m)) \<and>
         Conn_check_ok_with f
           \<lparr>inp = replicate k CHR ''\<newline>'' @ ''ok\<newline>'' @ rest, outp = out\<rparr> onempty = Inr None"
proof -
  have "linereader ((''error '' @ m) @ CHR ''\<newline>'' # rest) = (''error '' @ m) # linereader rest"
    using assms(2) by (intro linereader_line) simp
  then have e: "linereader (replicate k CHR ''\<newline>'' @ ''error '' @ m @ ''\<newline>'' @ rest) =
      replicate k [] @ (''error '' @ m) # linereader rest"
    by (simp add: linereader_blank_lines)
  have "linereader (''ok'' @ CHR ''\<newline>'' # rest) = ''ok'' # linereader rest"
    by (rule linereader_line) simp
  then have k: "linereader (replicate k CHR ''\<newline>'' @ ''ok\<newline>'' @ rest) =
      replicate k [] @ ''ok'' # linereader rest"
    by (simp add: linereader_blank_lines)
  show ?thesis
    using assms(1) e k
    by (simp add: Conn_check_ok_with_def check_ok_loop_blank_lines)
qed

theorem peer_error_returned_witness:
  "drain_and_check_ok memory_file \<lparr>inp = ''\<newline>error disk full\<newline>'', outp = []\<rparr> =
     Inr (Some (NotOk ''disk full'')) \<and>
   check_ok memory_file \<lparr>inp = ''\<newline>error disk full\<newline>'', outp = []\<rparr> =
     Inr (Some (NotOk ''disk full'')) \<and>
   drain_and_check_ok memory_file \<lparr>inp = ''\<newline>ok\<newline>'', outp = []\<rparr> = Inr None"
proof -
  have fl: "fst (flush_method memory_file []) = Inr ()"
    by (simp add: memory_file_def)
  have nl: "CHR ''\<newline>'' \<notin> set ''disk full''"
    by simp
  from peer_error_returned [OF fl nl, of 1 "[]" "\<lambda>rl. Inr ()"]
    peer_error_returned [OF fl nl, of 1 "[]" "\<lambda>rl. Inl (ExpectedOk rl)"]
  show ?thesis
    by (simp add: drain_and_check_ok_def check_ok_def)
qed

subsection \<open>The end of the stream\<close>

text \<open>
  C7, as amended. For every input on which the line generator yields no line equal to
  \<^verbatim>\<open>ok\<close> and no line beginning with \<^verbatim>\<open>error \<close>: \<^verbatim>\<open>drain_and_check_ok\<close> raises the
  server-exited exception; \<^verbatim>\<open>check_ok\<close> raises it when every line is blank and
  otherwise raises \<^verbatim>\<open>expected "ok", got\<close> for the first line that is not blank; and
  with any handler the scan raises, it does not return.
\<close>

theorem eof_without_sentinel:
  assumes "fst (flush_method f (outp self)) = Inr ()"
    and "\<forall>rl\<in>set (linereader (inp self)). rl \<noteq> ''ok'' \<and> \<not> prefix ''error '' rl"
  shows "drain_and_check_ok f self = Inl ServerExited \<and>
         check_ok f self =
           (case filter (\<lambda>rl. rl \<noteq> []) (linereader (inp self)) of
              [] \<Rightarrow> Inl ServerExited
            | g # _ \<Rightarrow> Inl (ExpectedOk g)) \<and>
         (\<exists>e. Conn_check_ok_with f self onempty = Inl e)"
  using assms(1) check_ok_loop_drain [OF assms(2)] check_ok_loop_strict [OF assms(2)]
    check_ok_loop_raises [OF assms(2), of onempty]
  by (simp add: drain_and_check_ok_def check_ok_def Conn_check_ok_with_def)

theorem eof_without_sentinel_witness:
  "drain_and_check_ok memory_file \<lparr>inp = ''\<newline>noise\<newline>more'', outp = []\<rparr> = Inl ServerExited \<and>
   check_ok memory_file \<lparr>inp = ''\<newline>noise\<newline>more'', outp = []\<rparr> = Inl (ExpectedOk ''noise'')"
proof -
  have fl: "fst (flush_method memory_file (outp \<lparr>inp = ''\<newline>noise\<newline>more'', outp = []\<rparr>)) = Inr ()"
    by (simp add: memory_file_def)
  have ls: "linereader ''\<newline>noise\<newline>more'' = [[], ''noise'', ''mor'']"
    by (simp add: linereader.simps)
  have "\<forall>rl\<in>set (linereader (inp \<lparr>inp = ''\<newline>noise\<newline>more'', outp = ([] :: string)\<rparr>)).
      rl \<noteq> ''ok'' \<and> \<not> prefix ''error '' rl"
    by (simp add: ls)
  from eof_without_sentinel [OF fl this] show ?thesis
    by (simp add: ls)
qed

text \<open>
  C7 as stated fails in strict mode: on the input \<^verbatim>\<open>garbage\<close> and a newline, which has
  no \<^verbatim>\<open>ok\<close> and no \<^verbatim>\<open>error\<close> line, \<^verbatim>\<open>check_ok\<close> raises \<^verbatim>\<open>expected "ok", got 'garbage'\<close>
  and not the server-exited exception.
\<close>

theorem strict_scan_eof_counterexample:
  "check_ok memory_file \<lparr>inp = ''garbage\<newline>'', outp = []\<rparr> = Inl (ExpectedOk ''garbage'')"
  by (simp add: check_ok_def Conn_check_ok_with_def memory_file_def linereader.simps)

text \<open>
  The last character of a final line without a newline is dropped, so the input
  \<^verbatim>\<open>okx\<close> after a blank line ends the scan with success.
\<close>

lemma unterminated_okx_is_success:
  "drain_and_check_ok memory_file \<lparr>inp = ''\<newline>okx'', outp = []\<rparr> = Inr None"
  by (simp add: drain_and_check_ok_def Conn_check_ok_with_def memory_file_def linereader.simps)

subsection \<open>A final line without a newline\<close>

text \<open>
  C9. \<^verbatim>\<open>linereader\<close> yields every value that \<^verbatim>\<open>readline()\<close> returns with its last
  character removed. After any lines that end in a newline, a final \<^verbatim>\<open>ok\<close> without
  one is yielded as \<^verbatim>\<open>o\<close>; after blank lines, \<^verbatim>\<open>drain_and_check_ok\<close> then raises the
  server-exited exception and \<^verbatim>\<open>check_ok\<close> raises \<^verbatim>\<open>expected "ok", got 'o'\<close>.
\<close>

theorem linereader_strips_last_character:
  assumes "fst (flush_method f out) = Inr ()"
    and "\<forall>l\<in>set ls. CHR ''\<newline>'' \<notin> set l"
  shows "linereader s = map butlast (readline_values s) \<and>
         linereader (concat (map (\<lambda>l. l @ ''\<newline>'') ls) @ ''ok'') = ls @ [''o''] \<and>
         drain_and_check_ok f \<lparr>inp = replicate k CHR ''\<newline>'' @ ''ok'', outp = out\<rparr> =
           Inl ServerExited \<and>
         check_ok f \<lparr>inp = replicate k CHR ''\<newline>'' @ ''ok'', outp = out\<rparr> =
           Inl (ExpectedOk ''o'')"
proof -
  have ok: "linereader ''ok'' = [butlast ''ok'']"
    by (rule linereader_unterminated) simp_all
  have "linereader (concat (map (\<lambda>l. l @ ''\<newline>'') ls) @ ''ok'') = ls @ linereader ''ok''"
    using assms(2) by (rule linereader_lines)
  with ok have a: "linereader (concat (map (\<lambda>l. l @ ''\<newline>'') ls) @ ''ok'') = ls @ [''o'']"
    by simp
  have b: "linereader (replicate k CHR ''\<newline>'' @ ''ok'') = replicate k [] @ [''o'']"
    using ok by (simp add: linereader_blank_lines)
  have c: "check_ok_loop onempty (replicate k [] @ [''o'']) = check_ok_loop onempty [''o'']"
    for onempty
    by (rule check_ok_loop_blank_lines)
  show ?thesis
    using assms(1) a
    by (simp add: linereader_readline_values [symmetric] drain_and_check_ok_def check_ok_def
        Conn_check_ok_with_def b c)
qed

theorem linereader_strips_last_character_witness:
  "linereader ''a\<newline>ok'' = map butlast (readline_values ''a\<newline>ok'') \<and>
   linereader ''a\<newline>\<newline>ok'' = [''a'', [], ''o''] \<and>
   drain_and_check_ok memory_file \<lparr>inp = ''\<newline>ok'', outp = []\<rparr> = Inl ServerExited \<and>
   check_ok memory_file \<lparr>inp = ''\<newline>ok'', outp = []\<rparr> = Inl (ExpectedOk ''o'')"
proof -
  have fl: "fst (flush_method memory_file []) = Inr ()"
    by (simp add: memory_file_def)
  have nl: "\<forall>l\<in>set [''a'', []]. CHR ''\<newline>'' \<notin> set l"
    by simp
  from linereader_strips_last_character [OF fl nl, of "''a\<newline>ok''" 1]
  show ?thesis by simp
qed

subsection \<open>The line error without a message\<close>

text \<open>
  C10. After any number of blank lines, the line \<^verbatim>\<open>error\<close> alone is handed to the
  handler: \<^verbatim>\<open>drain_and_check_ok\<close> goes on with the rest of the input, \<^verbatim>\<open>check_ok\<close> raises
  \<^verbatim>\<open>expected "ok", got 'error'\<close>. Whenever a scan returns \<^verbatim>\<open>NotOk(m)\<close>, the generator
  has yielded a line that is \<^verbatim>\<open>error \<close> followed by \<open>m\<close>, and \<open>m\<close> is that line without
  its first six characters.
\<close>

theorem bare_error_line_is_unexpected:
  assumes "fst (flush_method f out) = Inr ()"
  shows "drain_and_check_ok f \<lparr>inp = replicate k CHR ''\<newline>'' @ ''error\<newline>'' @ rest, outp = out\<rparr> =
           drain_and_check_ok f \<lparr>inp = rest, outp = out\<rparr> \<and>
         check_ok f \<lparr>inp = replicate k CHR ''\<newline>'' @ ''error\<newline>'' @ rest, outp = out\<rparr> =
           Inl (ExpectedOk ''error'') \<and>
         (Conn_check_ok_with f \<lparr>inp = s, outp = out\<rparr> onempty = Inr (Some (NotOk m)) \<longrightarrow>
            (\<exists>rl\<in>set (linereader s). rl = ''error '' @ m \<and> m = drop 6 rl))"
proof -
  have "linereader (''error'' @ CHR ''\<newline>'' # rest) = ''error'' # linereader rest"
    by (rule linereader_line) simp
  then have l: "linereader (replicate k CHR ''\<newline>'' @ ''error\<newline>'' @ rest) =
      replicate k [] @ ''error'' # linereader rest"
    by (simp add: linereader_blank_lines)
  have "\<exists>rl\<in>set (linereader s). rl = ''error '' @ m \<and> m = drop 6 rl"
    if "Conn_check_ok_with f \<lparr>inp = s, outp = out\<rparr> onempty = Inr (Some (NotOk m))"
  proof -
    from that assms have "check_ok_loop onempty (linereader s) = Inr (Some (NotOk m))"
      by (simp add: Conn_check_ok_with_def)
    from check_ok_loop_NotOk [OF this] show ?thesis by auto
  qed
  then show ?thesis
    using assms l
    by (simp add: drain_and_check_ok_def check_ok_def Conn_check_ok_with_def
        check_ok_loop_blank_lines)
qed

theorem bare_error_line_is_unexpected_witness:
  "drain_and_check_ok memory_file \<lparr>inp = ''error\<newline>\<newline>ok\<newline>'', outp = []\<rparr> = Inr None \<and>
   check_ok memory_file \<lparr>inp = ''error\<newline>\<newline>ok\<newline>'', outp = []\<rparr> = Inl (ExpectedOk ''error'') \<and>
   (\<exists>rl\<in>set (linereader ''\<newline>error disk full\<newline>''). rl = ''error disk full'')"
proof -
  have fl: "fst (flush_method memory_file []) = Inr ()"
    by (simp add: memory_file_def)
  have r: "drain_and_check_ok memory_file \<lparr>inp = ''\<newline>ok\<newline>'', outp = []\<rparr> = Inr None"
    by (simp add: drain_and_check_ok_def Conn_check_ok_with_def memory_file_def linereader.simps)
  have e: "Conn_check_ok_with memory_file \<lparr>inp = ''\<newline>error disk full\<newline>'', outp = []\<rparr>
      (\<lambda>rl. Inr ()) = Inr (Some (NotOk ''disk full''))"
    by (simp add: Conn_check_ok_with_def memory_file_def linereader.simps)
  from bare_error_line_is_unexpected [OF fl, of 0 "''\<newline>ok\<newline>''" "''\<newline>error disk full\<newline>''"
      "\<lambda>rl. Inr ()" "''disk full''"] r e
  show ?thesis by simp
qed

section \<open>Conn.error\<close>

subsection \<open>The substitution and the specification's wording agree\<close>

lemma re_sub_spaces_only_space:
  "c \<in> set (re_sub_spaces m) \<Longrightarrow> isspace c \<Longrightarrow> c = CHR '' ''"
  by (induction m rule: re_sub_spaces.induct) (auto split: if_splits)

lemma re_sub_spaces_no_newline: "CHR ''\<newline>'' \<notin> set (re_sub_spaces m)"
proof
  assume "CHR ''\<newline>'' \<in> set (re_sub_spaces m)"
  moreover have "isspace CHR ''\<newline>''" by (simp add: isspace_def)
  ultimately have "CHR ''\<newline>'' = CHR '' ''" by (rule re_sub_spaces_only_space)
  then show False by simp
qed

lemma re_sub_spaces_word:
  "re_sub_spaces cs =
   takeWhile (\<lambda>d. \<not> isspace d) cs @ re_sub_spaces (dropWhile (\<lambda>d. \<not> isspace d) cs)"
  by (induction cs) simp_all

lemma spec_runs_concat: "concat (spec_runs m) = m"
  by (induction m rule: spec_runs.induct) simp_all

text \<open>
  \<open>spec_runs\<close> does cut a string into its maximal runs: the runs put together are the
  string, every run is non-empty and of one kind, and neighbouring runs are of
  different kinds.
\<close>

lemma spec_runs_homogeneous:
  "r \<in> set (spec_runs m) \<Longrightarrow> r \<noteq> [] \<and> (\<forall>d\<in>set r. isspace d = isspace (hd r))"
proof (induction m arbitrary: r rule: spec_runs.induct)
  case 1
  then show ?case by simp
next
  case (2 c cs)
  define P where "P = (\<lambda>d. isspace d = isspace c)"
  from "2.prems" have "r = c # takeWhile P cs \<or> r \<in> set (spec_runs (dropWhile P cs))"
    unfolding P_def by simp
  then show ?case
  proof
    assume r: "r = c # takeWhile P cs"
    have "P d" if "d \<in> set (takeWhile P cs)" for d
      using that by (rule set_takeWhileD [THEN conjunct2])
    moreover have "P c" by (simp add: P_def)
    ultimately have "\<forall>d\<in>set r. P d" unfolding r by auto
    then have "\<forall>d\<in>set r. isspace d = isspace c" unfolding P_def .
    moreover have "hd r = c" "r \<noteq> []" unfolding r by simp_all
    ultimately show ?thesis by blast
  next
    assume "r \<in> set (spec_runs (dropWhile P cs))"
    then show ?thesis unfolding P_def by (rule "2.IH")
  qed
qed

lemma spec_runs_Nil: "spec_runs m = [] \<longleftrightarrow> m = []"
  by (cases m) simp_all

lemma spec_runs_hd: "m \<noteq> [] \<Longrightarrow> hd (hd (spec_runs m)) = hd m"
  by (cases m) simp_all

lemma spec_runs_maximal:
  "distinct_adj (map (\<lambda>r. isspace (hd r)) (spec_runs m))"
proof (induction m rule: spec_runs.induct)
  case 1
  then show ?case by simp
next
  case (2 c cs)
  let ?rest = "dropWhile (\<lambda>d. isspace d = isspace c) cs"
  show ?case
  proof (cases "?rest = []")
    case True
    have "spec_runs (c # cs) = [c # takeWhile (\<lambda>d. isspace d = isspace c) cs]"
      using True by (simp del: dropWhile_eq_Nil_conv)
    then show ?thesis by simp
  next
    case False
    have diff: "isspace (hd ?rest) \<noteq> isspace c"
      using hd_dropWhile [OF False] by simp
    from False obtain r rs where rs: "spec_runs ?rest = r # rs"
      by (cases "spec_runs ?rest") (simp_all add: spec_runs_Nil del: dropWhile_eq_Nil_conv)
    have "hd (hd (spec_runs ?rest)) = hd ?rest"
      using False by (rule spec_runs_hd)
    with rs diff have h: "isspace (hd r) \<noteq> isspace c" by simp
    have step: "spec_runs (c # cs) = (c # takeWhile (\<lambda>d. isspace d = isspace c) cs) # r # rs"
      using rs by simp
    from "2.IH" rs have "distinct_adj (isspace (hd r) # map (\<lambda>r. isspace (hd r)) rs)"
      by simp
    with h show ?thesis
      unfolding step by (simp add: distinct_adj_Cons)
  qed
qed

lemma re_sub_spaces_spec: "re_sub_spaces m = spec_collapse m"
proof (induction "length m" arbitrary: m rule: less_induct)
  case less
  show ?case
  proof (cases m)
    case Nil
    then show ?thesis by (simp add: spec_collapse_def)
  next
    case (Cons c cs)
    show ?thesis
    proof (cases "isspace c")
      case True
      then have p: "(\<lambda>d. isspace d = isspace c) = isspace" by auto
      have "length (dropWhile isspace cs) < length m"
        using Cons by (simp add: length_dropWhile_le less_Suc_eq_le)
      from less [OF this] True show ?thesis
        by (simp add: Cons spec_collapse_def p)
    next
      case False
      then have p: "(\<lambda>d. isspace d = isspace c) = (\<lambda>d. \<not> isspace d)" by auto
      have "length (dropWhile (\<lambda>d. \<not> isspace d) cs) < length m"
        using Cons by (simp add: length_dropWhile_le less_Suc_eq_le)
      from less [OF this] False re_sub_spaces_word [of cs] show ?thesis
        by (simp add: Cons spec_collapse_def p)
    qed
  qed
qed

text \<open>
  C8. For every message \<open>m\<close>, \<^verbatim>\<open>Conn.error(m)\<close> is one \<^verbatim>\<open>write\<close> of a newline, \<^verbatim>\<open>error \<close>,
  the message with every maximal run of whitespace replaced by one space, and a
  newline; on an in-memory file exactly these bytes are appended; and the collapsed
  message contains no newline.
\<close>

theorem conn_error_writes_collapsed_line:
  "Conn_error f self m = Conn_write f self (''\<newline>error '' @ spec_collapse m @ ''\<newline>'') \<and>
   Conn_error memory_file \<lparr>inp = i, outp = out\<rparr> m =
     (Inr (), \<lparr>inp = i, outp = out @ ''\<newline>error '' @ spec_collapse m @ ''\<newline>''\<rparr>) \<and>
   CHR ''\<newline>'' \<notin> set (spec_collapse m)"
  using re_sub_spaces_no_newline [of m]
  by (simp add: Conn_error_def Conn_write_def memory_file_def re_sub_spaces_spec)

lemma conn_error_example:
  "Conn_error memory_file \<lparr>inp = [], outp = []\<rparr> ''disk  full\<newline>now'' =
     (Inr (), \<lparr>inp = [], outp = ''\<newline>error disk full now\<newline>''\<rparr>)"
  by (simp add: Conn_error_def Conn_write_def memory_file_def isspace_def)

end
